theory Spec2Isabelle
  imports Complex_Main "HOL-Library.AList"
begin

section \<open>Python values and string primitives\<close>

text \<open>
  A Python \<open>str\<close> is modelled as a \<open>string\<close> in which every \<open>char\<close> stands for one code
  point in the range U+0000 .. U+00FF. Code points above U+00FF are outside the model.
  Within ASCII the UTF-8 encoding of a \<open>str\<close> is the same list of characters, so the
  \<open>char*\<close> buffers of the CSV tokenizer are the same lists.
\<close>

text \<open>\<open>str.isspace\<close> on one code point below U+0100: TAB..CR, FS..US, SPACE, NEL, NBSP.\<close>

definition isspace_chr :: "char \<Rightarrow> bool" where
  "isspace_chr c = (of_char c \<in> {9, 10, 11, 12, 13, 28, 29, 30, 31, 32, 133, 160 :: nat})"

text \<open>\<open>str.isdigit\<close> on one code point below U+0100: 0..9 and the superscripts 2, 3, 1.\<close>

definition isdigit_chr :: "char \<Rightarrow> bool" where
  "isdigit_chr c = ((48 \<le> (of_char c :: nat) \<and> (of_char c :: nat) \<le> 57)
                     \<or> of_char c \<in> {178, 179, 185 :: nat})"

text \<open>\<open>s.strip()\<close>, \<open>s.lstrip('0')\<close>, \<open>s.isdigit()\<close>, \<open>s.replace(c, t)\<close> for a
  one-character \<open>c\<close>, the slice \<open>s[a:b]\<close> for \<open>0 \<le> a \<le> b\<close>, and \<open>x or y\<close> on strings.\<close>

definition py_strip :: "string \<Rightarrow> string" where
  "py_strip s = rev (dropWhile isspace_chr (rev (dropWhile isspace_chr s)))"

definition py_lstrip_chr :: "char \<Rightarrow> string \<Rightarrow> string" where
  "py_lstrip_chr c s = dropWhile (\<lambda>x. x = c) s"

definition py_isdigit :: "string \<Rightarrow> bool" where
  "py_isdigit s = (s \<noteq> [] \<and> list_all isdigit_chr s)"

definition py_replace_chr :: "char \<Rightarrow> string \<Rightarrow> string \<Rightarrow> string" where
  "py_replace_chr c t s = concat (map (\<lambda>x. if x = c then t else [x]) s)"

definition py_slice :: "nat \<Rightarrow> nat \<Rightarrow> string \<Rightarrow> string" where
  "py_slice a b s = take (b - a) (drop a s)"

definition py_or :: "string \<Rightarrow> string \<Rightarrow> string" where
  "py_or x y = (if x = [] then y else x)"

text \<open>
  JSON-like Python values. A \<open>dict\<close> is an association list in insertion order with
  \<open>str\<close> keys; numbers other than \<open>int\<close> are opaque scalars to every function below and
  are not represented separately.
\<close>

datatype pyval =
    PNone
  | PBool bool
  | PInt int
  | PStr string
  | PList "pyval list"
  | PDict "(string \<times> pyval) list"

datatype error = TypeError | AttributeError | OSError | CallbackError | ProcessingError error

type_synonym pydict = "(string \<times> pyval) list"

text \<open>\<open>d.get(k, default)\<close> and \<open>d[k] = v\<close> (an existing key keeps its position).\<close>

definition dict_get :: "(string \<times> 'v) list \<Rightarrow> string \<Rightarrow> 'v \<Rightarrow> 'v" where
  "dict_get d k dflt = (case map_of d k of None \<Rightarrow> dflt | Some v \<Rightarrow> v)"

definition dict_set :: "(string \<times> 'v) list \<Rightarrow> string \<Rightarrow> 'v \<Rightarrow> (string \<times> 'v) list" where
  "dict_set d k v = AList.update k v d"

section \<open>SAPTransformerCy: the generic field normalizer\<close>

text \<open>The body of \<open>_transform_sap_field\<close> after the \<open>isinstance(value, str)\<close> test.\<close>

definition transform_sap_str :: "string \<Rightarrow> string" where
  "transform_sap_str v =
     (let string_value = py_strip v in
      if string_value = [] then ''''
      else if length string_value = 8 \<and> py_isdigit string_value then
        (if string_value \<noteq> ''00000000''
         then py_slice 0 4 string_value @ ''-'' @ py_slice 4 6 string_value @ ''-''
              @ py_slice 6 8 string_value
         else '''')
      else if length string_value = 6 \<and> py_isdigit string_value then
        py_slice 0 2 string_value @ '':'' @ py_slice 2 4 string_value @ '':''
        @ py_slice 4 6 string_value
      else if py_isdigit (py_replace_chr (CHR ''-'') ''''
                 (py_replace_chr (CHR '','') '''' (py_replace_chr (CHR ''.'') '''' string_value)))
      then
        (if CHR '','' \<in> set string_value \<and> CHR ''.'' \<notin> set string_value
         then py_replace_chr (CHR '','') ''.'' string_value
         else string_value)
      else if py_isdigit string_value \<and> 8 \<le> length string_value then
        py_or (py_lstrip_chr (CHR ''0'') string_value) ''0''
      else string_value)"

fun transform_sap_field :: "pyval \<Rightarrow> pyval" where
  "transform_sap_field (PStr s) = PStr (transform_sap_str s)"
| "transform_sap_field v = v"

section \<open>SAPTransformerCy: BAPI response parser\<close>

record message =
  m_type :: "string option"
  m_message :: pyval
  m_field :: pyval
  m_number :: pyval
  m_severity :: string

record parsed_table =
  headers :: "string list"
  rows :: "pyval list list"
  row_count :: nat

record metadata =
  record_count :: nat
  table_count :: nat
  has_errors :: bool
  message_count :: nat

record bapi_result =
  success :: bool
  messages :: "message list"
  data :: pydict
  tables :: "(string \<times> parsed_table) list"
  metadata :: metadata

text \<open>Assignment to a \<open>cdef str\<close> variable: a \<open>str\<close> or \<open>None\<close> passes, anything else
  raises \<open>TypeError\<close>.\<close>

fun as_cdef_str :: "pyval \<Rightarrow> error + string option" where
  "as_cdef_str (PStr s) = Inr (Some s)"
| "as_cdef_str PNone = Inr None"
| "as_cdef_str v = Inl TypeError"

definition get_message_severity :: "string option \<Rightarrow> string" where
  "get_message_severity msg_type =
     (if msg_type = Some ''S'' then ''success''
      else if msg_type = Some ''I'' then ''info''
      else if msg_type = Some ''W'' then ''warning''
      else if msg_type = Some ''E'' then ''error''
      else if msg_type = Some ''A'' then ''abort''
      else ''unknown'')"

text \<open>One row of \<open>_transform_sap_table\<close>. The row is assigned to a \<open>cdef dict\<close> variable
  (\<open>TypeError\<close> unless a dict or \<open>None\<close>); \<open>row.get\<close> on \<open>None\<close> raises
  \<open>AttributeError\<close>, and is reached only when there is a header.\<close>

fun row_values :: "string list \<Rightarrow> pyval \<Rightarrow> error + pyval list" where
  "row_values hs (PDict row) =
     Inr (map (\<lambda>header. transform_sap_field (dict_get row header (PStr ''''))) hs)"
| "row_values hs PNone = (if hs = [] then Inr [] else Inl AttributeError)"
| "row_values hs v = Inl TypeError"

fun table_rows :: "string list \<Rightarrow> pyval list \<Rightarrow> error + pyval list list" where
  "table_rows hs [] = Inr []"
| "table_rows hs (row # table_data) =
     (case row_values hs row of
        Inl e \<Rightarrow> Inl e
      | Inr row_vals \<Rightarrow>
          (case table_rows hs table_data of
             Inl e \<Rightarrow> Inl e
           | Inr rs \<Rightarrow> Inr (row_vals # rs)))"

fun transform_sap_table :: "pyval list \<Rightarrow> error + parsed_table" where
  "transform_sap_table [] = Inr \<lparr>headers = [], rows = [], row_count = 0\<rparr>"
| "transform_sap_table (PDict first_row # table_data) =
     (let hs = map fst first_row in
      case table_rows hs (PDict first_row # table_data) of
        Inl e \<Rightarrow> Inl e
      | Inr rs \<Rightarrow> Inr \<lparr>headers = hs, rows = rs, row_count = length rs\<rparr>)"
| "transform_sap_table (PNone # table_data) = Inl AttributeError"
| "transform_sap_table (v # table_data) = Inl TypeError"

text \<open>The objects the loop \<open>for msg in return_data\<close> visits: a dict has been promoted to
  a one-element list, a \<open>str\<close> yields its one-character strings, and other scalars are
  not iterable.\<close>

fun return_items :: "pyval \<Rightarrow> error + pyval list" where
  "return_items (PDict d) = Inr [PDict d]"
| "return_items (PList xs) = Inr xs"
| "return_items (PStr s) = Inr (map (\<lambda>c. PStr [c]) s)"
| "return_items v = Inl TypeError"

fun process_messages ::
  "pyval list \<Rightarrow> bool \<Rightarrow> message list \<Rightarrow> error + (bool \<times> message list)" where
  "process_messages [] succ msgs = Inr (succ, msgs)"
| "process_messages (PDict msg # return_data) succ msgs =
     (case as_cdef_str (dict_get msg ''TYPE'' (PStr '''')) of
        Inl e \<Rightarrow> Inl e
      | Inr msg_type \<Rightarrow>
          process_messages return_data
            (if msg_type = Some ''E'' \<or> msg_type = Some ''A'' then False else succ)
            (msgs @ [\<lparr>m_type = msg_type,
                       m_message = dict_get msg ''MESSAGE'' (PStr ''''),
                       m_field = dict_get msg ''FIELD'' (PStr ''''),
                       m_number = dict_get msg ''NUMBER'' (PStr ''''),
                       m_severity = get_message_severity msg_type\<rparr>]))"
| "process_messages (PNone # return_data) succ msgs = Inl AttributeError"
| "process_messages (v # return_data) succ msgs = Inl TypeError"

definition is_table_param :: "pyval \<Rightarrow> bool" where
  "is_table_param v = (case v of PList xs \<Rightarrow> xs \<noteq> [] | _ \<Rightarrow> False)"

definition list_items :: "pyval \<Rightarrow> pyval list" where
  "list_items v = (case v of PList xs \<Rightarrow> xs | _ \<Rightarrow> [])"

fun process_fields ::
  "pydict \<Rightarrow> pydict \<Rightarrow> (string \<times> parsed_table) list
     \<Rightarrow> error + (pydict \<times> (string \<times> parsed_table) list)" where
  "process_fields [] dat tabs = Inr (dat, tabs)"
| "process_fields ((key, val) # items) dat tabs =
     (if key = ''RETURN'' then process_fields items dat tabs
      else if is_table_param val then
        (case transform_sap_table (list_items val) of
           Inl e \<Rightarrow> Inl e
         | Inr t \<Rightarrow> process_fields items dat (dict_set tabs key t))
      else process_fields items (dict_set dat key (transform_sap_field val)) tabs)"

definition transform_bapi_result :: "pydict \<Rightarrow> error + bapi_result" where
  "transform_bapi_result bapi_response =
     (case (case map_of bapi_response ''RETURN'' of
              None \<Rightarrow> Inr (True, [])
            | Some return_data \<Rightarrow>
                (case return_items return_data of
                   Inl e \<Rightarrow> Inl e
                 | Inr ms \<Rightarrow> process_messages ms True [])) of
        Inl e \<Rightarrow> Inl e
      | Inr (succ, msgs) \<Rightarrow>
          (case process_fields bapi_response [] [] of
             Inl e \<Rightarrow> Inl e
           | Inr (dat, tabs) \<Rightarrow>
               Inr \<lparr>success = succ, messages = msgs, data = dat, tables = tabs,
                    metadata = \<lparr>record_count = sum_list (map (\<lambda>(k, t). length (rows t)) tabs),
                                 table_count = length tabs,
                                 has_errors = (\<not> succ),
                                 message_count = length msgs\<rparr>\<rparr>))"

section \<open>CSVProcessorCy: tokenizer and record assembler\<close>

record csv_processor =
  delimiter :: char
  quotechar :: char
  buffer_size :: int

text \<open>\<open>__init__\<close> keeps the first character of each argument as a C \<open>char\<close>. The model is
  defined for non-empty ASCII arguments.\<close>

definition csv_init :: "string \<Rightarrow> string \<Rightarrow> int \<Rightarrow> csv_processor option" where
  "csv_init delim quote bufsize =
     (if delim \<noteq> [] \<and> quote \<noteq> [] \<and> (of_char (hd delim) :: nat) < 128
           \<and> (of_char (hd quote) :: nat) < 128
      then Some \<lparr>delimiter = hd delim, quotechar = hd quote, buffer_size = bufsize\<rparr>
      else None)"

text \<open>\<open>s.startswith('"')\<close>, \<open>s.endswith('"')\<close> and \<open>s[1:-1]\<close>: the source writes the
  double quote as a literal in all three places.\<close>

definition starts_with_dquote :: "string \<Rightarrow> bool" where
  "starts_with_dquote s = (s \<noteq> [] \<and> hd s = CHR 0x22)"

definition ends_with_dquote :: "string \<Rightarrow> bool" where
  "ends_with_dquote s = (s \<noteq> [] \<and> last s = CHR 0x22)"

definition strip_one_layer :: "string \<Rightarrow> string" where
  "strip_one_layer s = take (length s - 2) (drop 1 s)"

text \<open>The field between two positions of the line, as both places of
  \<open>_parse_csv_line_fast\<close> extract it.\<close>

definition extract_field :: "string \<Rightarrow> nat \<Rightarrow> nat \<Rightarrow> string" where
  "extract_field line field_start i =
     (let field = py_strip (py_slice field_start i line) in
      if starts_with_dquote field \<and> ends_with_dquote field then strip_one_layer field
      else field)"

text \<open>The \<open>while i < line_length\<close> loop with its state \<open>i\<close>, \<open>field_start\<close>,
  \<open>in_quotes\<close>, \<open>fields\<close>, followed by the extraction of the last field. Callers pass
  \<open>line_length = length line\<close>, so every index read is inside the buffer.\<close>

function parse_loop ::
  "csv_processor \<Rightarrow> string \<Rightarrow> nat \<Rightarrow> nat \<Rightarrow> nat \<Rightarrow> bool \<Rightarrow> string list \<Rightarrow> string list" where
  "parse_loop p line line_length i field_start in_quotes flds =
     (if i < line_length then
        (if line ! i = quotechar p then
           parse_loop p line line_length (i + 1) field_start (\<not> in_quotes) flds
         else if line ! i = delimiter p \<and> \<not> in_quotes then
           parse_loop p line line_length (i + 1) (i + 1) in_quotes
             (flds @ [extract_field line field_start i])
         else parse_loop p line line_length (i + 1) field_start in_quotes flds)
      else flds @ [extract_field line field_start line_length])"
  by pat_completeness auto
termination
  by (relation "measure (\<lambda>(p, line, line_length, i, field_start, in_quotes, flds). line_length - i)")
    auto

definition parse_csv_line_fast :: "csv_processor \<Rightarrow> string \<Rightarrow> nat \<Rightarrow> string list" where
  "parse_csv_line_fast p line line_length = parse_loop p line line_length 0 0 False []"

text \<open>\<open>s.split(c)\<close> for a one-character separator, and \<open>str(n)\<close> for an integer.\<close>

fun py_split_chr :: "char \<Rightarrow> string \<Rightarrow> string list" where
  "py_split_chr c [] = [[]]"
| "py_split_chr c (x # xs) =
     (if x = c then [] # py_split_chr c xs
      else (case py_split_chr c xs of [] \<Rightarrow> [[x]] | w # ws \<Rightarrow> (x # w) # ws))"

definition digit_chr :: "nat \<Rightarrow> char" where
  "digit_chr d = char_of (48 + d)"

fun str_of_nat :: "nat \<Rightarrow> string" where
  "str_of_nat n =
     (if n < 10 then [digit_chr n] else str_of_nat (n div 10) @ [digit_chr (n mod 10)])"

definition str_of_int :: "int \<Rightarrow> string" where
  "str_of_int i = (if i < 0 then ''-'' @ str_of_nat (nat (- i)) else str_of_nat (nat i))"

text \<open>A record built by assigning \<open>record[name] = value\<close> pair by pair; \<open>zip\<close> stops at the
  shorter list, as \<open>range(min(len(headers), len(fields)))\<close> does.\<close>

definition build_record :: "string list \<Rightarrow> string list \<Rightarrow> (string \<times> string) list" where
  "build_record names flds = foldl (\<lambda>r (k, v). dict_set r k v) [] (zip names flds)"

definition col_names :: "nat \<Rightarrow> string list" where
  "col_names n = map (\<lambda>j. ''col_'' @ str_of_nat j) [0..<n]"

text \<open>The loop over the data lines of \<open>process_fast\<close>; \<open>hdrs\<close> is \<open>None\<close> until a header
  line has been parsed.\<close>

fun process_lines ::
  "csv_processor \<Rightarrow> bool \<Rightarrow> string list option \<Rightarrow> string list \<Rightarrow> (string \<times> string) list list"
  where
  "process_lines p has_header hdrs [] = []"
| "process_lines p has_header hdrs (line # lines) =
     (if py_strip line = [] then process_lines p has_header hdrs lines
      else
        (let flds = parse_csv_line_fast p line (length line) in
         (if has_header \<and> hdrs \<noteq> None \<and> hdrs \<noteq> Some []
          then build_record (the hdrs) flds
          else build_record (col_names (length flds)) flds)
         # process_lines p has_header hdrs lines))"

definition process_fast :: "csv_processor \<Rightarrow> string \<Rightarrow> bool \<Rightarrow> (string \<times> string) list list" where
  "process_fast p file_content has_header =
     (let lines = py_split_chr (CHR 0x0A) (py_strip file_content) in
      if lines = [] then []
      else if has_header
        then process_lines p has_header
               (Some (parse_csv_line_fast p (hd lines) (length (hd lines)))) (tl lines)
        else process_lines p has_header None lines)"

text \<open>
  \<open>process_large_file_fast\<close>. The file is the list of lines its iterator yields, or
  \<open>None\<close> when it cannot be opened. \<open>process_chunk\<close> is the function defined inside the
  method; each finished chunk is passed to it and its result is dropped. The \<open>except\<close>
  clause wraps whatever was raised.
\<close>

definition process_chunk :: "(string \<times> string) list list \<Rightarrow> (string \<times> string) list list" where
  "process_chunk chunk_data = chunk_data"

fun large_file_loop ::
  "csv_processor \<Rightarrow> string list option \<Rightarrow> int \<Rightarrow> string list
     \<Rightarrow> (string \<times> string) list list \<Rightarrow> nat \<Rightarrow> (string \<times> string) list list \<times> nat" where
  "large_file_loop p hdrs chunk_size [] chunk line_count = (chunk, line_count)"
| "large_file_loop p hdrs chunk_size (raw # f) chunk line_count =
     (let line = py_strip raw in
      if line = [] then large_file_loop p hdrs chunk_size f chunk line_count
      else
        (let flds = parse_csv_line_fast p line (length line);
             chunk' = (if hdrs \<noteq> None \<and> hdrs \<noteq> Some []
                       then chunk @ [build_record (the hdrs) flds] else chunk)
         in if chunk_size \<le> int (length chunk')
            then (let delivered = process_chunk chunk'
                  in large_file_loop p hdrs chunk_size f [] (line_count + 1))
            else large_file_loop p hdrs chunk_size f chunk' (line_count + 1)))"

definition process_large_file_fast ::
  "csv_processor \<Rightarrow> string list option \<Rightarrow> int \<Rightarrow> error + nat" where
  "process_large_file_fast p file chunk_size =
     (case file of
        None \<Rightarrow> Inl (ProcessingError OSError)
      | Some f \<Rightarrow>
          (let header_line = (case f of [] \<Rightarrow> [] | l # ls \<Rightarrow> py_strip l);
               hdrs = (if header_line \<noteq> []
                       then Some (parse_csv_line_fast p header_line (length header_line))
                       else None);
               (chunk, line_count) = large_file_loop p hdrs chunk_size (tl f) [] 0;
               delivered = (if chunk \<noteq> [] then process_chunk chunk else [])
           in Inr line_count))"

text \<open>\<open>stream_process\<close> takes the caller's chunk handler as \<open>callback\<close> (\<open>None\<close> by
  default); a handler either returns or raises.\<close>

type_synonym chunk_handler = "(string \<times> string) list list \<Rightarrow> error + unit"

definition stream_process ::
  "csv_processor \<Rightarrow> string list option \<Rightarrow> int \<Rightarrow> chunk_handler option \<Rightarrow> error + nat" where
  "stream_process p file chunk_size callback = process_large_file_fast p file chunk_size"

section \<open>Validator\<close>

text \<open>A rule object of the schema: a dict whose keys are all optional.\<close>

record field_rules =
  required :: "bool option"
  ftype :: "string option"
  min_length :: "int option"
  max_length :: "int option"
  pattern :: "string option"

record validation_error =
  ve_record :: nat
  ve_field :: string
  ve_error :: string

text \<open>
  \<open>erp_data_validator\<close>. The builtins it calls are parameters: \<open>int_ok s\<close> and
  \<open>float_ok s\<close> say whether \<open>int(s)\<close> and \<open>float(s)\<close> return rather than raise
  \<open>ValueError\<close>, and \<open>str_of\<close> is \<open>str\<close> on the values of a record.
\<close>

definition validate_field ::
  "(string \<Rightarrow> bool) \<Rightarrow> (string \<Rightarrow> bool) \<Rightarrow> ('v \<Rightarrow> string) \<Rightarrow> nat \<Rightarrow> (string \<times> 'v) list
     \<Rightarrow> string \<Rightarrow> field_rules \<Rightarrow> validation_error list" where
  "validate_field int_ok float_ok str_of record_idx rec field_name field_rules =
     (case map_of rec field_name of
        None \<Rightarrow>
          (if (case required field_rules of None \<Rightarrow> False | Some b \<Rightarrow> b)
           then [\<lparr>ve_record = record_idx, ve_field = field_name,
                   ve_error = ''Required field missing''\<rparr>]
           else [])
      | Some v \<Rightarrow>
          (let field_value = str_of v;
               field_type = (case ftype field_rules of None \<Rightarrow> ''string'' | Some t \<Rightarrow> t)
           in (if field_type = ''integer'' then
                 (if int_ok field_value then []
                  else [\<lparr>ve_record = record_idx, ve_field = field_name,
                          ve_error = ''Invalid integer: '' @ field_value\<rparr>])
               else if field_type = ''float'' then
                 (if float_ok field_value then []
                  else [\<lparr>ve_record = record_idx, ve_field = field_name,
                          ve_error = ''Invalid float: '' @ field_value\<rparr>])
               else [])
              @ (case max_length field_rules of
                   None \<Rightarrow> []
                 | Some m \<Rightarrow>
                     (if m < int (length field_value)
                      then [\<lparr>ve_record = record_idx, ve_field = field_name,
                              ve_error = ''Value too long: '' @ str_of_nat (length field_value)
                                         @ '' > '' @ str_of_int m\<rparr>]
                      else []))))"

definition erp_data_validator ::
  "(string \<Rightarrow> bool) \<Rightarrow> (string \<Rightarrow> bool) \<Rightarrow> ('v \<Rightarrow> string) \<Rightarrow> (string \<times> 'v) list list
     \<Rightarrow> (string \<times> field_rules) list \<Rightarrow> validation_error list" where
  "erp_data_validator int_ok float_ok str_of dat schema =
     concat (map (\<lambda>record_idx.
        concat (map (\<lambda>(field_name, field_rules).
                  validate_field int_ok float_ok str_of record_idx (dat ! record_idx)
                    field_name field_rules) schema))
        [0..<length dat])"

section \<open>JSONProcessorCy: flatten\<close>











section \<open>NumericAggregator: group aggregation with the mean\<close>

text \<open>
  A C \<open>double\<close> (IEEE 754 binary64): a finite value is the rational number it denotes,
  and the two zeros are one value, as they are under \<open>==\<close>. Every finite double is
  \<open>m * 2 ^ q\<close> for integers \<open>m\<close> and \<open>q\<close> with \<open>\<bar>m\<bar> < 2 ^ 53\<close> and \<open>-1074 \<le> q \<le> 971\<close>.
\<close>

datatype double = Finite rat | PosInf | NegInf | NaN

definition pow2 :: "int \<Rightarrow> rat" where
  "pow2 k = (if 0 \<le> k then 2 ^ nat k else 1 / 2 ^ nat (- k))"

text \<open>The number of binary digits of a natural number, and for a fraction \<open>n / d\<close> of
  positive integers the exponent \<open>e\<close> with \<open>2 ^ e \<le> n / d < 2 ^ (e + 1)\<close>.\<close>

fun bit_length :: "nat \<Rightarrow> nat" where
  "bit_length n = (if n = 0 then 0 else Suc (bit_length (n div 2)))"

definition binary_exponent :: "int \<Rightarrow> int \<Rightarrow> int" where
  "binary_exponent n d =
     (let e = int (bit_length (nat n)) - int (bit_length (nat d))
      in if (if 0 \<le> e then d * 2 ^ nat e \<le> n else d \<le> n * 2 ^ nat (- e)) then e else e - 1)"

text \<open>The fraction \<open>n / d\<close> with \<open>d > 0\<close> rounded to the nearest integer, a tie to the
  even one.\<close>

definition round_half_even :: "int \<Rightarrow> int \<Rightarrow> int" where
  "round_half_even n d =
     (let f = n div d; r = n mod d
      in if 2 * r < d then f
         else if d < 2 * r then f + 1
         else if even f then f else f + 1)"

text \<open>
  The double an exact result \<open>n / d\<close> (with \<open>d > 0\<close>) is rounded to in the default
  rounding mode, to nearest with ties to even. With \<open>2 ^ e \<le> \<bar>n / d\<bar> < 2 ^ (e + 1)\<close> the
  result is the nearest multiple of \<open>2 ^ q\<close>, where \<open>q = e - 52\<close>, or \<open>q = -1074\<close> in the
  subnormal range; a rounded magnitude of \<open>2 ^ 1024\<close> or more overflows to an infinity.
\<close>

definition round_frac :: "int \<Rightarrow> int \<Rightarrow> double" where
  "round_frac n d =
     (if n = 0 then Finite 0
      else
        (let e = binary_exponent \<bar>n\<bar> d;
             q = max e (- 1022) - 52;
             m = (if 0 \<le> q then round_half_even n (d * 2 ^ nat q)
                  else round_half_even (n * 2 ^ nat (- q)) d);
             r = of_int m * pow2 q
         in if pow2 1024 \<le> \<bar>r\<bar> then (if 0 < n then PosInf else NegInf) else Finite r))"

definition round64 :: "rat \<Rightarrow> double" where
  "round64 x = (case quotient_of x of (n, d) \<Rightarrow> round_frac n d)"

text \<open>\<open>a + b\<close> on doubles, and \<open>a / n\<close> for a double \<open>a\<close> and a C \<open>int\<close> \<open>n > 0\<close>, which
  is converted to a double exactly.\<close>

fun fadd :: "double \<Rightarrow> double \<Rightarrow> double" where
  "fadd NaN b = NaN"
| "fadd a NaN = NaN"
| "fadd PosInf NegInf = NaN"
| "fadd NegInf PosInf = NaN"
| "fadd PosInf b = PosInf"
| "fadd a PosInf = PosInf"
| "fadd NegInf b = NegInf"
| "fadd a NegInf = NegInf"
| "fadd (Finite a) (Finite b) = round64 (a + b)"

fun fdiv_int :: "double \<Rightarrow> nat \<Rightarrow> double" where
  "fdiv_int (Finite a) n = (case quotient_of a of (p, q) \<Rightarrow> round_frac p (q * int n))"
| "fdiv_int a n = a"

text \<open>\<open>fast_mean\<close>: the loop \<open>total += arr[i]\<close> from \<open>0.0\<close>, then \<open>total / n\<close>.\<close>

definition fast_mean :: "double list \<Rightarrow> double" where
  "fast_mean arr =
     (if length arr = 0 then Finite 0
      else fdiv_int (foldl fadd (Finite 0) arr) (length arr))"

text \<open>
  The first loop of \<open>erp_group_aggregation\<close>: \<open>groups\<close> is a dict from group id to the
  list of its values, in the order the ids first appear.
\<close>

definition add_to_group ::
  "(int \<times> double list) list \<Rightarrow> int \<Rightarrow> double \<Rightarrow> (int \<times> double list) list" where
  "add_to_group groups group_id val =
     (let groups' = (if map_of groups group_id = None
                     then AList.update group_id [] groups else groups)
      in case map_of groups' group_id of
           None \<Rightarrow> groups'
         | Some group_values \<Rightarrow> AList.update group_id (group_values @ [val]) groups')"

definition group_values_by_id ::
  "int list \<Rightarrow> double list \<Rightarrow> (int \<times> double list) list" where
  "group_values_by_id group_ids vals =
     foldl (\<lambda>groups (group_id, val). add_to_group groups group_id val) []
       (zip group_ids vals)"

text \<open>
  \<open>erp_group_aggregation\<close> called with \<open>agg_func = 'mean'\<close>: the grouping loop, then
  \<open>results[group_id] = fast_mean(values_array)\<close> for every group. The loop reads
  \<open>group_ids[i]\<close> for every index of \<open>values\<close> with bounds checking off, so the result is
  defined when \<open>group_ids\<close> is at least as long as \<open>values\<close>. The branches for the other
  aggregation functions are not part of this model.
\<close>

definition erp_group_aggregation_mean ::
  "int list \<Rightarrow> double list \<Rightarrow> (int \<times> double) list option" where
  "erp_group_aggregation_mean group_ids vals =
     (if length group_ids < length vals then None
      else Some (foldl (\<lambda>results (group_id, group_values).
                          AList.update group_id (fast_mean group_values) results) []
                   (group_values_by_id (take (length vals) group_ids) vals)))"

text \<open>The rationals that are doubles: rounding leaves them as they are.\<close>

definition is_double :: "rat \<Rightarrow> bool" where
  "is_double x = (round64 x = Finite x)"

section \<open>Properties of the string primitives\<close>

lemma replace_empty: "py_replace_chr c [] s = filter (\<lambda>x. x \<noteq> c) s"
  by (induction s) (auto simp: py_replace_chr_def)

lemma replace_single: "py_replace_chr c [d] s = map (\<lambda>x. if x = c then d else x) s"
  by (induction s) (auto simp: py_replace_chr_def)

lemma digit_not_space: "isdigit_chr c \<Longrightarrow> \<not> isspace_chr c"
  by (auto simp: isdigit_chr_def isspace_chr_def)

lemma digit_not_punct:
  "isdigit_chr c \<Longrightarrow>
     c \<noteq> CHR ''-'' \<and> c \<noteq> CHR '','' \<and> c \<noteq> CHR ''.'' \<and> c \<noteq> CHR '':''"
  by (auto simp: isdigit_chr_def)

lemma punct_not_space: "\<not> isspace_chr (CHR ''.'')"
  by (simp add: isspace_chr_def)

lemma strip_fixed:
  "u = [] \<or> (\<not> isspace_chr (hd u) \<and> \<not> isspace_chr (last u)) \<Longrightarrow> py_strip u = u"
proof (cases u)
  case Nil
  then show ?thesis by (simp add: py_strip_def)
next
  case (Cons a w)
  assume "u = [] \<or> (\<not> isspace_chr (hd u) \<and> \<not> isspace_chr (last u))"
  with Cons have h: "\<not> isspace_chr a" and l: "\<not> isspace_chr (last u)" by auto
  have 1: "dropWhile isspace_chr u = u" using Cons h by simp
  have ne: "u \<noteq> []" using Cons by simp
  have "rev u = last u # rev (butlast u)" using ne
    by (metis append_butlast_last_id rev.simps(2) rev_append rev_rev_ident append_Cons append_Nil rev_singleton_conv)
  then have 2: "dropWhile isspace_chr (rev u) = rev u" using l
    by (metis dropWhile.simps(2))
  show ?thesis by (simp add: py_strip_def 1 2)
qed

lemma strip_hd_last:
  assumes "py_strip v \<noteq> []"
  shows "\<not> isspace_chr (hd (py_strip v)) \<and> \<not> isspace_chr (last (py_strip v))"
proof -
  let ?a = "dropWhile isspace_chr v"
  let ?b = "dropWhile isspace_chr (rev ?a)"
  have b: "?b \<noteq> []" using assms by (simp add: py_strip_def)
  have hb: "\<not> isspace_chr (hd ?b)" using b by (rule hd_dropWhile)
  have last: "last (py_strip v) = hd ?b" using b by (simp add: py_strip_def last_rev)
  have a: "?a \<noteq> []" using b by (cases "?a") simp_all
  have ha: "\<not> isspace_chr (hd ?a)" using a by (rule hd_dropWhile)
  obtain ys where ys: "rev ?a = ys @ ?b" 
    by (metis takeWhile_dropWhile_id)
  then have "?a = rev ?b @ rev ys" by (metis rev_append rev_rev_ident)
  then have "hd ?a = hd (rev ?b)" using b by (metis hd_append2 rev_is_Nil_conv)
  then have "\<not> isspace_chr (hd (py_strip v))" using ha by (simp add: py_strip_def)
  with hb last show ?thesis by simp
qed

lemma strip_idem: "py_strip (py_strip v) = py_strip v"
  using strip_hd_last[of v] by (intro strip_fixed) auto

section \<open>Properties of the field normalizer\<close>

lemma isdigit_filter_id:
  "list_all isdigit_chr s \<Longrightarrow> filter (\<lambda>x. x \<noteq> CHR ''-'') (filter (\<lambda>x. x \<noteq> CHR '','') (filter (\<lambda>x. x \<noteq> CHR ''.'') s)) = s"
  using digit_not_punct by (induction s) auto

lemma transform_amount_branch:
  assumes "py_strip v \<noteq> []"
    and "\<not> (length (py_strip v) = 8 \<and> py_isdigit (py_strip v))"
    and "\<not> (length (py_strip v) = 6 \<and> py_isdigit (py_strip v))"
    and "py_isdigit (py_replace_chr (CHR ''-'') ''''
                 (py_replace_chr (CHR '','') '''' (py_replace_chr (CHR ''.'') '''' (py_strip v))))"
  shows "transform_sap_str v = (if CHR '','' \<in> set (py_strip v) \<and> CHR ''.'' \<notin> set (py_strip v)
            then py_replace_chr (CHR '','') ''.'' (py_strip v) else py_strip v)"
proof -
  have "(length (py_strip v) = 8 \<and> py_isdigit (py_strip v)) = False"
       "(length (py_strip v) = 6 \<and> py_isdigit (py_strip v)) = False"
    using assms(2,3) by blast+
  then show ?thesis using assms(1,4)
    unfolding transform_sap_str_def Let_def by (simp only: if_False if_True)
qed

lemma amount_test_of_digits:
  "py_isdigit s \<Longrightarrow> py_isdigit (py_replace_chr (CHR ''-'') ''''
                 (py_replace_chr (CHR '','') '''' (py_replace_chr (CHR ''.'') '''' s)))"
  by (simp add: replace_empty isdigit_filter_id py_isdigit_def del: filter_filter)

lemma amount_test_map:
  "filter (\<lambda>x. x \<noteq> CHR ''-'') (filter (\<lambda>x. x \<noteq> CHR '','') (filter (\<lambda>x. x \<noteq> CHR ''.'')
      (map (\<lambda>x. if x = CHR '','' then CHR ''.'' else x) s)))
   = filter (\<lambda>x. x \<noteq> CHR ''-'') (filter (\<lambda>x. x \<noteq> CHR '','') (filter (\<lambda>x. x \<noteq> CHR ''.'') s))"
  by (induction s) auto

lemma transform_empty: "transform_sap_str '''' = ''''"
  by (simp add: transform_sap_str_def py_strip_def)

lemma transform_date_fixed:
  assumes "length s = 8" "py_isdigit s"
  shows "transform_sap_str (py_slice 0 4 s @ ''-'' @ py_slice 4 6 s @ ''-'' @ py_slice 6 8 s)
         = py_slice 0 4 s @ ''-'' @ py_slice 4 6 s @ ''-'' @ py_slice 6 8 s"
proof -
  from assms(1) obtain a b c d e f g h where s: "s = [a, b, c, d, e, f, g, h]"
    by (auto simp: length_Suc_conv eval_nat_numeral)
  let ?o = "[a, b, c, d, CHR ''-'', e, f, CHR ''-'', g, h]"
  have o: "py_slice 0 4 s @ ''-'' @ py_slice 4 6 s @ ''-'' @ py_slice 6 8 s = ?o"
    by (simp add: s py_slice_def)
  have dig: "isdigit_chr a" "isdigit_chr b" "isdigit_chr c" "isdigit_chr d"
    "isdigit_chr e" "isdigit_chr f" "isdigit_chr g" "isdigit_chr h"
    using assms(2) by (simp_all add: s py_isdigit_def)
  have st: "py_strip ?o = ?o"
    by (rule strip_fixed) (simp add: dig digit_not_space)
  have am: "py_isdigit (py_replace_chr (CHR ''-'') ''''
                 (py_replace_chr (CHR '','') '''' (py_replace_chr (CHR ''.'') '''' ?o)))"
    using dig digit_not_punct by (simp add: replace_empty py_isdigit_def)
  have nc: "CHR '','' \<notin> set ?o" using dig digit_not_punct by auto
  show ?thesis unfolding o
    by (simp add: transform_sap_str_def st am nc del: set_simps list.set)
qed

lemma transform_time_fixed:
  assumes "length s = 6" "py_isdigit s"
  shows "transform_sap_str (py_slice 0 2 s @ '':'' @ py_slice 2 4 s @ '':'' @ py_slice 4 6 s)
         = py_slice 0 2 s @ '':'' @ py_slice 2 4 s @ '':'' @ py_slice 4 6 s"
proof -
  from assms(1) obtain a b c d e f where s: "s = [a, b, c, d, e, f]"
    by (auto simp: length_Suc_conv eval_nat_numeral)
  let ?o = "[a, b, CHR '':'', c, d, CHR '':'', e, f]"
  have o: "py_slice 0 2 s @ '':'' @ py_slice 2 4 s @ '':'' @ py_slice 4 6 s = ?o"
    by (simp add: s py_slice_def)
  have dig: "isdigit_chr a" "isdigit_chr b" "isdigit_chr c" "isdigit_chr d"
    "isdigit_chr e" "isdigit_chr f"
    using assms(2) by (simp_all add: s py_isdigit_def)
  have st: "py_strip ?o = ?o"
    by (rule strip_fixed) (simp add: dig digit_not_space)
  have colon: "\<not> isdigit_chr (CHR '':'')" by (simp add: isdigit_chr_def)
  have nd: "\<not> py_isdigit ?o" using colon by (simp add: py_isdigit_def)
  have am: "\<not> py_isdigit (py_replace_chr (CHR ''-'') ''''
                 (py_replace_chr (CHR '','') '''' (py_replace_chr (CHR ''.'') '''' ?o)))"
    using dig digit_not_punct colon by (simp add: replace_empty py_isdigit_def)
  show ?thesis unfolding o
    by (simp add: transform_sap_str_def st am nd)
qed

lemma transform_amount_fixed:
  assumes ne: "py_strip v \<noteq> []"
    and am: "py_isdigit (py_replace_chr (CHR ''-'') ''''
                 (py_replace_chr (CHR '','') '''' (py_replace_chr (CHR ''.'') '''' (py_strip v))))"
    and n8: "\<not> (length (py_strip v) = 8 \<and> py_isdigit (py_strip v))"
    and n6: "\<not> (length (py_strip v) = 6 \<and> py_isdigit (py_strip v))"
  shows "transform_sap_str
           (if CHR '','' \<in> set (py_strip v) \<and> CHR ''.'' \<notin> set (py_strip v)
            then py_replace_chr (CHR '','') ''.'' (py_strip v) else py_strip v)
         = (if CHR '','' \<in> set (py_strip v) \<and> CHR ''.'' \<notin> set (py_strip v)
            then py_replace_chr (CHR '','') ''.'' (py_strip v) else py_strip v)"
proof (cases "CHR '','' \<in> set (py_strip v) \<and> CHR ''.'' \<notin> set (py_strip v)")
  case False
  have "transform_sap_str (py_strip v) = py_strip v"
    using transform_amount_branch[of "py_strip v"] ne am n8 n6 False
    by (simp add: strip_idem)
  then show ?thesis using False by auto
next
  case True
  let ?s = "py_strip v"
  let ?o = "map (\<lambda>x. if x = CHR '','' then CHR ''.'' else x) ?s"
  have hl: "\<not> isspace_chr (hd ?s) \<and> \<not> isspace_chr (last ?s)" using ne by (rule strip_hd_last)
  have one: "?o \<noteq> []" using ne by simp
  have "hd ?o = (if hd ?s = CHR '','' then CHR ''.'' else hd ?s)" using ne by (simp add: hd_map)
  moreover have "last ?o = (if last ?s = CHR '','' then CHR ''.'' else last ?s)"
    using ne by (simp add: last_map)
  ultimately have st: "py_strip ?o = ?o" using hl punct_not_space
    by (intro strip_fixed) auto
  have dot: "CHR ''.'' \<in> set ?o" using True by force
  have nd: "\<not> py_isdigit ?o" using dot digit_not_punct
    by (auto simp: py_isdigit_def list_all_iff simp del: set_map)
  have am': "py_isdigit (py_replace_chr (CHR ''-'') ''''
                 (py_replace_chr (CHR '','') '''' (py_replace_chr (CHR ''.'') '''' ?o)))"
    using am by (simp only: replace_empty amount_test_map)
  have nc: "CHR '','' \<notin> set ?o" by auto
  have "transform_sap_str ?o = ?o"
    using one nd am' nc by (simp add: transform_sap_str_def st del: set_map)
  then show ?thesis using True by (simp add: replace_single)
qed

lemma transform_sap_str_idem: "transform_sap_str (transform_sap_str x) = transform_sap_str x"
proof -
  let ?s = "py_strip x"
  consider (empty) "?s = []"
    | (date) "?s \<noteq> []" "length ?s = 8" "py_isdigit ?s"
    | (time) "?s \<noteq> []" "length ?s = 6" "py_isdigit ?s"
    | (amount) "?s \<noteq> []" "\<not> (length ?s = 8 \<and> py_isdigit ?s)" "\<not> (length ?s = 6 \<and> py_isdigit ?s)"
        "py_isdigit (py_replace_chr (CHR ''-'') ''''
                 (py_replace_chr (CHR '','') '''' (py_replace_chr (CHR ''.'') '''' ?s)))"
    | (other) "?s \<noteq> []" "\<not> (length ?s = 8 \<and> py_isdigit ?s)" "\<not> (length ?s = 6 \<and> py_isdigit ?s)"
        "\<not> py_isdigit (py_replace_chr (CHR ''-'') ''''
                 (py_replace_chr (CHR '','') '''' (py_replace_chr (CHR ''.'') '''' ?s)))"
    by auto
  then show ?thesis
  proof cases
    case empty
    then show ?thesis by (simp add: transform_sap_str_def transform_empty[unfolded transform_sap_str_def])
  next
    case date
    have "transform_sap_str x = (if ?s \<noteq> ''00000000''
         then py_slice 0 4 ?s @ ''-'' @ py_slice 4 6 ?s @ ''-'' @ py_slice 6 8 ?s else '''')"
      using date by (simp add: transform_sap_str_def Let_def)
    then show ?thesis using transform_date_fixed[OF date(2,3)] transform_empty by simp
  next
    case time
    have "transform_sap_str x = py_slice 0 2 ?s @ '':'' @ py_slice 2 4 ?s @ '':'' @ py_slice 4 6 ?s"
      using time by (simp add: transform_sap_str_def Let_def)
    then show ?thesis using transform_time_fixed[OF time(2,3)] by simp
  next
    case amount
    have "transform_sap_str x = (if CHR '','' \<in> set ?s \<and> CHR ''.'' \<notin> set ?s
            then py_replace_chr (CHR '','') ''.'' ?s else ?s)"
      using amount by (intro transform_amount_branch)
    then show ?thesis using transform_amount_fixed[OF amount(1) amount(4) amount(2) amount(3)]
      by simp
  next
    case other
    have nd: "\<not> py_isdigit ?s" using other(4) amount_test_of_digits by blast
    have "transform_sap_str x = ?s"
      using other nd by (simp add: transform_sap_str_def Let_def)
    moreover have "transform_sap_str ?s = ?s"
      using other nd by (simp add: transform_sap_str_def Let_def strip_idem)
    ultimately show ?thesis by simp
  qed
qed

text \<open>
  The amount rule precedes the material-number rule and accepts every value of digits
  only, so a value of digits only whose length is neither 8 nor 6 is returned as it is
  after trimming, leading zeros included.
\<close>

lemma transform_all_digits:
  assumes "py_isdigit (py_strip v)"
    and "length (py_strip v) \<noteq> 8" and "length (py_strip v) \<noteq> 6"
  shows "transform_sap_str v = py_strip v"
proof -
  have ne: "py_strip v \<noteq> []" using assms(1) by (auto simp: py_isdigit_def)
  have nc: "CHR '','' \<notin> set (py_strip v)"
    using assms(1) digit_not_punct by (auto simp: py_isdigit_def list_all_iff)
  show ?thesis
    using transform_amount_branch[OF ne _ _ amount_test_of_digits[OF assms(1)]] assms(2,3) nc
    by simp
qed

lemma transform_000123456: "transform_sap_str ''000123456'' = ''000123456''"
  by (simp add: transform_sap_str_def py_strip_def py_isdigit_def isspace_chr_def
      isdigit_chr_def py_replace_chr_def)

text \<open>
  Claim C1, as the code has it: for the input \<open>"00012345"\<close> the generic field normalizer
  returns \<open>"0001-23-45"\<close>. The string has eight characters, all digits, and is not
  \<open>"00000000"\<close>, so the date rule applies; it precedes the material-number rule.
\<close>

theorem C1_date_path: "transform_sap_field (PStr ''00012345'') = PStr ''0001-23-45''"
  by (simp add: transform_sap_str_def py_strip_def py_isdigit_def isspace_chr_def
      isdigit_chr_def py_slice_def)

text \<open>
  Claim C1 as stated (the result is \<open>"12345"\<close>) does not hold of the code.
\<close>

theorem C1_counterexample: "transform_sap_field (PStr ''00012345'') \<noteq> PStr ''12345''"
  by (simp add: transform_sap_str_def py_strip_def py_isdigit_def isspace_chr_def
      isdigit_chr_def py_slice_def)

text \<open>
  Claim C7: the generic field normalizer is idempotent; for every string \<open>x\<close>,
  normalizing the normalized value gives the normalized value.
\<close>

theorem C7_normalize_idempotent:
  "transform_sap_field (transform_sap_field (PStr x)) = transform_sap_field (PStr x)"
  by (simp add: transform_sap_str_idem)

section \<open>Properties of the CSV tokenizer and record assembler\<close>

text \<open>Every field the tokenizer produces is a trimmed slice of the line from which one
  layer of double quotes has been removed.\<close>

lemma parse_loop_fields:
  "f \<in> set (parse_loop p line n i field_start in_quotes flds) \<Longrightarrow>
     f \<in> set flds \<or> (\<exists>a b. f = extract_field line a b)"
proof (induction p line n i field_start in_quotes flds rule: parse_loop.induct)
  case (1 p line line_length i field_start in_quotes flds)
  show ?case
  proof (cases "i < line_length")
    case False
    with "1.prems" show ?thesis by auto
  next
    case True
    note lt = this
    show ?thesis
    proof (cases "line ! i = quotechar p")
      case True
      with lt "1.prems" "1.IH"(1) show ?thesis by simp
    next
      case False
      note nq = this
      show ?thesis
      proof (cases "line ! i = delimiter p \<and> \<not> in_quotes")
        case True
        with lt nq "1.prems" "1.IH"(2) show ?thesis by auto
      next
        case False
        with lt nq "1.prems" "1.IH"(3) show ?thesis by auto
      qed
    qed
  qed
qed

lemma extract_field_shape:
  "extract_field line a b =
     (if starts_with_dquote (py_strip (py_slice a b line))
         \<and> ends_with_dquote (py_strip (py_slice a b line))
      then strip_one_layer (py_strip (py_slice a b line))
      else py_strip (py_slice a b line))"
  by (simp add: extract_field_def Let_def)

text \<open>
  Claim C3: processing the three-line CSV text of the specification with delimiter
  \<open>,\<close>, quote character \<open>"\<close> and \<open>has_header = True\<close> produces exactly the two records
  \<open>{id: 1, name: Acme, Inc., amount: 100.50}\<close> and \<open>{id: 2, name: Beta Corp, amount: 200.00}\<close>,
  in this order.
\<close>

theorem C3_process_fast_example:
  "csv_init '','' [CHR 0x22] 8192
     = Some \<lparr>delimiter = CHR '','', quotechar = CHR 0x22, buffer_size = 8192\<rparr>
   \<and> process_fast \<lparr>delimiter = CHR '','', quotechar = CHR 0x22, buffer_size = 8192\<rparr>
       (''id,name,amount'' @ [CHR 0x0A]
        @ ''1,'' @ [CHR 0x22] @ ''Acme, Inc.'' @ [CHR 0x22] @ '',100.50'' @ [CHR 0x0A]
        @ ''2,Beta Corp,200.00'') True
     = [[(''id'', ''1''), (''name'', ''Acme, Inc.''), (''amount'', ''100.50'')],
        [(''id'', ''2''), (''name'', ''Beta Corp''), (''amount'', ''200.00'')]]"
  by code_simp

text \<open>
  Claim C4 at a processor configured with the apostrophe as quote character: the line
  \<open>a,'b'\<close> is split into \<open>a\<close> and \<open>'b'\<close>. The second field begins and ends with the
  configured quote character and keeps it, while a field in double quotes loses them
  although they are not the configured quote character.
\<close>

theorem C4_configured_quote_not_stripped:
  "csv_init '','' [CHR 0x27] 8192
     = Some \<lparr>delimiter = CHR '','', quotechar = CHR 0x27, buffer_size = 8192\<rparr>
   \<and> parse_csv_line_fast \<lparr>delimiter = CHR '','', quotechar = CHR 0x27, buffer_size = 8192\<rparr>
       (''a,'' @ [CHR 0x27] @ ''b'' @ [CHR 0x27]) 5
     = [''a'', [CHR 0x27] @ ''b'' @ [CHR 0x27]]
   \<and> parse_csv_line_fast \<lparr>delimiter = CHR '','', quotechar = CHR 0x27, buffer_size = 8192\<rparr>
       (''a,'' @ [CHR 0x22] @ ''b'' @ [CHR 0x22]) 5
     = [''a'', ''b'']"
  by code_simp

text \<open>The result of \<open>stream_process\<close> is the same for every chunk handler.\<close>

lemma stream_process_ignores_callback:
  "stream_process p file chunk_size callback = stream_process p file chunk_size callback'"
  by (simp add: stream_process_def)

text \<open>
  Claim C5 at a file with a header line and one data line, chunk size 1000 and a chunk
  handler that raises on every chunk: \<open>stream_process\<close> returns the line count 1. The
  handler is not called and its exception is not surfaced.
\<close>

theorem C5_callback_never_invoked:
  "stream_process \<lparr>delimiter = CHR '','', quotechar = CHR 0x22, buffer_size = 8192\<rparr>
     (Some [''id,name'' @ [CHR 0x0A], ''1,a'' @ [CHR 0x0A]]) 1000
     (Some (\<lambda>chunk. Inl CallbackError)) = Inr 1"
  by code_simp

section \<open>Properties of the validator\<close>

text \<open>
  Claim C6 at a record whose field \<open>name\<close> is \<open>ab\<close> under a rule with \<open>min_length = 5\<close>,
  and at a record whose field \<open>code\<close> is \<open>abc\<close> under a rule with the pattern
  \<open>^[0-9]+$\<close>: \<open>erp_data_validator\<close> returns no error for either.
\<close>

theorem C6_min_length_and_pattern_ignored:
  "erp_data_validator int_ok float_ok id [[(''name'', ''ab'')]]
     [(''name'', \<lparr>required = None, ftype = None, min_length = Some 5,
                   max_length = None, pattern = None\<rparr>)] = []
   \<and> erp_data_validator int_ok float_ok id [[(''code'', ''abc'')]]
     [(''code'', \<lparr>required = None, ftype = None, min_length = None,
                   max_length = None, pattern = Some ''^[0-9]+$''\<rparr>)] = []"
  by (simp add: erp_data_validator_def validate_field_def)

text \<open>The rules \<open>min_length\<close> and \<open>pattern\<close> never change the result.\<close>

lemma validate_field_ignores_min_length_pattern:
  "validate_field int_ok float_ok str_of idx r name (rules\<lparr>min_length := m, pattern := pt\<rparr>)
     = validate_field int_ok float_ok str_of idx r name rules"
  by (cases "map_of r name") (simp_all add: validate_field_def)

section \<open>Properties of the BAPI response parser\<close>

lemma severity_error_abort:
  "(get_message_severity t = ''error'' \<or> get_message_severity t = ''abort'')
     \<longleftrightarrow> (t = Some ''E'' \<or> t = Some ''A'')"
  by (simp add: get_message_severity_def)

lemma process_messages_inv:
  "process_messages ms s0 acc = Inr (s, out) \<Longrightarrow>
   s0 = (\<not> (\<exists>m \<in> set acc. m_severity m = ''error'' \<or> m_severity m = ''abort'')) \<Longrightarrow>
   (\<forall>m \<in> set acc. m_severity m = get_message_severity (m_type m)) \<Longrightarrow>
   s = (\<not> (\<exists>m \<in> set out. m_severity m = ''error'' \<or> m_severity m = ''abort''))
   \<and> (\<forall>m \<in> set out. m_severity m = get_message_severity (m_type m))"
proof (induction ms s0 acc rule: process_messages.induct)
  case (1 succ msgs)
  then show ?case by auto
next
  case (2 msg return_data succ msgs)
  from "2.prems"(1) obtain t where
    t: "as_cdef_str (dict_get msg ''TYPE'' (PStr '''')) = Inr t"
    by (auto split: sum.splits)
  let ?m = "\<lparr>m_type = t, m_message = dict_get msg ''MESSAGE'' (PStr ''''),
              m_field = dict_get msg ''FIELD'' (PStr ''''),
              m_number = dict_get msg ''NUMBER'' (PStr ''''),
              m_severity = get_message_severity t\<rparr>"
  let ?s = "if t = Some ''E'' \<or> t = Some ''A'' then False else succ"
  have run: "process_messages return_data ?s (msgs @ [?m]) = Inr (s, out)"
    using "2.prems"(1) t by simp
  have a: "?s = (\<not> (\<exists>m \<in> set (msgs @ [?m]). m_severity m = ''error'' \<or> m_severity m = ''abort''))"
    using "2.prems"(2) severity_error_abort[of t] by auto
  have b: "\<forall>m \<in> set (msgs @ [?m]). m_severity m = get_message_severity (m_type m)"
    using "2.prems"(3) by simp
  show ?case by (rule "2.IH"[OF t run a b])
qed simp_all

lemma bapi_messages_inv:
  assumes "transform_bapi_result resp = Inr r"
  shows "success r = (\<not> (\<exists>m \<in> set (messages r). m_severity m = ''error'' \<or> m_severity m = ''abort''))
   \<and> (\<forall>m \<in> set (messages r). m_severity m = get_message_severity (m_type m))"
proof (cases "map_of resp ''RETURN''")
  case None
  with assms show ?thesis
    by (auto simp: transform_bapi_result_def split: sum.splits prod.splits)
next
  case (Some rd)
  with assms obtain ms dat tabs where
    ms: "return_items rd = Inr ms" and
    pm: "process_messages ms True [] = Inr (success r, messages r)"
    by (auto simp: transform_bapi_result_def split: sum.splits prod.splits)
  show ?thesis using process_messages_inv[OF pm] by simp
qed

text \<open>
  Claim C2: in every result the BAPI response parser produces, \<open>success\<close> is false if and
  only if at least one message has severity error or abort, and the severity of every
  message is computed from its type code by the table S to success, I to info, W to
  warning, E to error, A to abort, anything else to unknown.
\<close>

theorem C2_success_iff_no_error_message:
  assumes "transform_bapi_result resp = Inr r"
  shows "(success r = False \<longleftrightarrow>
            (\<exists>m \<in> set (messages r). m_severity m = ''error'' \<or> m_severity m = ''abort''))
   \<and> (\<forall>m \<in> set (messages r). m_severity m =
         (if m_type m = Some ''S'' then ''success''
          else if m_type m = Some ''I'' then ''info''
          else if m_type m = Some ''W'' then ''warning''
          else if m_type m = Some ''E'' then ''error''
          else if m_type m = Some ''A'' then ''abort''
          else ''unknown''))"
  using bapi_messages_inv[OF assms] by (simp add: get_message_severity_def)

text \<open>
  The theorem at the response \<open>{"RETURN": {"TYPE": "E", "MESSAGE": "Invalid data"},
  "RESULT": "42"}\<close>: the parser returns, \<open>success\<close> is false and the one message has
  severity error.
\<close>

theorem C2_success_iff_no_error_message_witness:
  "transform_bapi_result
     [(''RETURN'', PDict [(''TYPE'', PStr ''E''), (''MESSAGE'', PStr ''Invalid data'')]),
      (''RESULT'', PStr ''42'')]
   = Inr \<lparr>success = False,
        messages = [\<lparr>m_type = Some ''E'', m_message = PStr ''Invalid data'',
              m_field = PStr [], m_number = PStr [], m_severity = ''error''\<rparr>],
        data = [(''RESULT'', PStr ''42'')], tables = [],
        metadata = \<lparr>record_count = 0, table_count = 0, has_errors = True,
                     message_count = 1\<rparr>\<rparr>
   \<and> (\<exists>m \<in> set [\<lparr>m_type = Some ''E'', m_message = PStr ''Invalid data'',
              m_field = PStr [], m_number = PStr [], m_severity = ''error''\<rparr>].
          m_severity m = ''error'' \<or> m_severity m = ''abort'')"
proof -
  have h: "transform_bapi_result
     [(''RETURN'', PDict [(''TYPE'', PStr ''E''), (''MESSAGE'', PStr ''Invalid data'')]),
      (''RESULT'', PStr ''42'')]
   = Inr \<lparr>success = False,
        messages = [\<lparr>m_type = Some ''E'', m_message = PStr ''Invalid data'',
              m_field = PStr [], m_number = PStr [], m_severity = ''error''\<rparr>],
        data = [(''RESULT'', PStr ''42'')], tables = [],
        metadata = \<lparr>record_count = 0, table_count = 0, has_errors = True,
                     message_count = 1\<rparr>\<rparr>"
    by code_simp
  from C2_success_iff_no_error_message[OF h] h show ?thesis by simp
qed

lemma row_values_length: "row_values hs r = Inr vs \<Longrightarrow> length vs = length hs"
  by (cases r) (auto split: if_splits)

lemma row_values_dict:
  "row_values hs (PDict row) = Inr vs \<Longrightarrow> j < length hs \<Longrightarrow>
     vs ! j = (case map_of row (hs ! j) of Some v \<Rightarrow> transform_sap_field v | None \<Rightarrow> PStr '''')"
  by (auto simp: dict_get_def transform_sap_str_def py_strip_def split: option.splits)

lemma table_rows_Inr:
  "table_rows hs tbl = Inr rs \<Longrightarrow>
     length rs = length tbl \<and> (\<forall>i < length tbl. row_values hs (tbl ! i) = Inr (rs ! i))"
proof (induction tbl arbitrary: rs)
  case Nil
  then show ?case by simp
next
  case (Cons row tbl)
  from Cons.prems obtain v vs where v: "row_values hs row = Inr v"
    and vs: "table_rows hs tbl = Inr vs" and rs: "rs = v # vs"
    by (auto split: sum.splits)
  from Cons.IH[OF vs] have ih: "length vs = length tbl"
    "\<And>i. i < length tbl \<Longrightarrow> row_values hs (tbl ! i) = Inr (vs ! i)" by auto
  show ?case
  proof (intro conjI allI impI)
    show "length rs = length (row # tbl)" using rs ih(1) by simp
  next
    fix i assume "i < length (row # tbl)"
    then show "row_values hs ((row # tbl) ! i) = Inr (rs ! i)"
      using v ih(2) rs by (cases i) auto
  qed
qed

lemma transform_sap_table_Inr:
  assumes "transform_sap_table tbl = Inr t" "tbl \<noteq> []"
  shows "\<exists>first_row. hd tbl = PDict first_row \<and> headers t = map fst first_row
           \<and> table_rows (headers t) tbl = Inr (rows t) \<and> row_count t = length (rows t)"
proof -
  from assms obtain x xs where tbl: "tbl = x # xs" by (cases tbl) auto
  show ?thesis
  proof (cases x)
    case (PDict first_row)
    with assms(1) tbl show ?thesis
      by (auto simp: Let_def split: sum.splits)
  qed (use assms(1) tbl in auto)
qed

text \<open>
  Claim C10: in every table the parser builds from a non-empty table parameter the
  headers are the keys of the first row, there is one row of values per source row, every
  row has exactly as many values as there are headers, and the value at a header's
  position is the normalized value the source row has under that header, or the empty
  string when the source row lacks the header; keys of a source row that are not headers
  contribute nothing.
\<close>

theorem C10_table_rows_follow_headers:
  assumes "transform_sap_table tbl = Inr t" and "tbl \<noteq> []"
  shows "(\<exists>first_row. hd tbl = PDict first_row \<and> headers t = map fst first_row)
    \<and> length (rows t) = length tbl
    \<and> (\<forall>r \<in> set (rows t). length r = length (headers t))
    \<and> (\<forall>i < length tbl. \<forall>j < length (headers t). \<forall>row. tbl ! i = PDict row \<longrightarrow>
          rows t ! i ! j = (case map_of row (headers t ! j) of
                              Some v \<Rightarrow> transform_sap_field v
                            | None \<Rightarrow> PStr ''''))"
proof -
  from transform_sap_table_Inr[OF assms] obtain first_row where
    f: "hd tbl = PDict first_row" "headers t = map fst first_row"
    and tr: "table_rows (headers t) tbl = Inr (rows t)" by blast
  from table_rows_Inr[OF tr] have len: "length (rows t) = length tbl"
    and rv: "\<And>i. i < length tbl \<Longrightarrow> row_values (headers t) (tbl ! i) = Inr (rows t ! i)"
    by auto
  have rl: "\<forall>r \<in> set (rows t). length r = length (headers t)"
  proof
    fix r assume "r \<in> set (rows t)"
    then obtain i where "i < length (rows t)" "r = rows t ! i" by (auto simp: in_set_conv_nth)
    with rv len show "length r = length (headers t)" by (auto dest: row_values_length)
  qed
  have cell: "\<forall>i < length tbl. \<forall>j < length (headers t). \<forall>row. tbl ! i = PDict row \<longrightarrow>
          rows t ! i ! j = (case map_of row (headers t ! j) of
                              Some v \<Rightarrow> transform_sap_field v
                            | None \<Rightarrow> PStr '''')"
  proof (intro allI impI)
    fix i j row assume "i < length tbl" "j < length (headers t)" "tbl ! i = PDict row"
    with rv[of i] show "rows t ! i ! j = (case map_of row (headers t ! j) of
                              Some v \<Rightarrow> transform_sap_field v
                            | None \<Rightarrow> PStr '''')"
      by (auto intro: row_values_dict)
  qed
  from f len rl cell show ?thesis by blast
qed

text \<open>
  The theorem at a table of two rows, \<open>{"A": "1", "B": " x "}\<close> and
  \<open>{"B": "20230615", "C": "zzz"}\<close>: the headers are \<open>A\<close> and \<open>B\<close>, the second row has the
  empty string under \<open>A\<close>, and its key \<open>C\<close> is dropped.
\<close>

theorem C10_table_rows_follow_headers_witness:
  "transform_sap_table
     [PDict [(''A'', PStr ''1''), (''B'', PStr '' x '')],
      PDict [(''B'', PStr ''20230615''), (''C'', PStr ''zzz'')]]
   = Inr \<lparr>headers = [''A'', ''B''],
          rows = [[PStr ''1'', PStr ''x''], [PStr '''', PStr ''2023-06-15'']],
          row_count = 2\<rparr>
   \<and> length (rows \<lparr>headers = [''A'', ''B''],
          rows = [[PStr ''1'', PStr ''x''], [PStr '''', PStr ''2023-06-15'']],
          row_count = 2\<rparr>) = 2"
proof -
  have h: "transform_sap_table
     [PDict [(''A'', PStr ''1''), (''B'', PStr '' x '')],
      PDict [(''B'', PStr ''20230615''), (''C'', PStr ''zzz'')]]
   = Inr \<lparr>headers = [''A'', ''B''],
          rows = [[PStr ''1'', PStr ''x''], [PStr '''', PStr ''2023-06-15'']],
          row_count = 2\<rparr>"
    by code_simp
  have ne: "[PDict [(''A'', PStr ''1''), (''B'', PStr '' x '')],
      PDict [(''B'', PStr ''20230615''), (''C'', PStr ''zzz'')]] \<noteq> []" by simp
  from C10_table_rows_follow_headers[OF h ne] h show ?thesis by simp
qed

section \<open>Properties of flatten\<close>









end
